theory Spec2Isabelle
  imports Main
begin

section \<open>Python strings\<close>

text \<open>
  A Python \<open>str\<close> is a sequence of Unicode code points and \<open>len\<close> counts code points, so
  a string is modelled as the list of its code points. Literals are written through
  \<open>lit\<close>, which reads each character of an Isabelle string as its code.
\<close>

type_synonym pystr = "nat list"

definition lit :: "string \<Rightarrow> pystr" where
  "lit s = map of_char s"

definition newline :: nat where
  "newline = 10"

text \<open>
  \<open>s.replace(old, new)\<close> for a pattern \<open>old\<close> of one character: every occurrence, from
  left to right, is replaced by \<open>new\<close>.
\<close>

primrec replace_char :: "nat \<Rightarrow> pystr \<Rightarrow> pystr \<Rightarrow> pystr" where
  "replace_char c new [] = []"
| "replace_char c new (x # xs) =
     (if x = c then new @ replace_char c new xs else x # replace_char c new xs)"

text \<open>
  \<open>s.split("\n")\<close>: the pieces between line feeds; a string with \<open>n\<close> line feeds has
  \<open>n + 1\<close> pieces, some of them possibly empty.
\<close>

primrec split_lines :: "pystr \<Rightarrow> pystr list" where
  "split_lines [] = [[]]"
| "split_lines (x # xs) =
     (if x = newline then [] # split_lines xs
      else (x # hd (split_lines xs)) # tl (split_lines xs))"

text \<open>\<open>str(i)\<close> of an integer: its decimal digits, behind a minus sign when negative.\<close>

fun str_nat :: "nat \<Rightarrow> pystr" where
  "str_nat n = (if n < 10 then [48 + n] else str_nat (n div 10) @ [48 + n mod 10])"

declare str_nat.simps [simp del]

definition str_int :: "int \<Rightarrow> pystr" where
  "str_int i = (if i < 0 then 45 # str_nat (nat (- i)) else str_nat (nat i))"

section \<open>ConsoleOutput\<close>

text \<open>
  \<open>ConsoleOutput.print(message)\<close>. The stamp is \<open>datetime.now().strftime("%X")\<close>, the
  clock's reading at the call; it is a parameter of the model. The console widget is the
  list of the texts given to \<open>appendPlainText\<close>, each of which starts a new paragraph.
\<close>

definition stamped :: "pystr \<Rightarrow> pystr \<Rightarrow> pystr" where
  "stamped stamp message =
     (let message' =
        (if newline \<in> set message
         then replace_char newline (newline # stamp @ lit '': '') message
         else message)
      in stamp @ lit '': '' @ message')"

definition ConsoleOutput_print :: "pystr \<Rightarrow> pystr \<Rightarrow> pystr list \<Rightarrow> pystr list" where
  "ConsoleOutput_print stamp message output = output @ [stamped stamp message]"

section \<open>Futures, tasks and the close event\<close>

text \<open>
  Values that cross an \<open>await\<close> here: \<open>None\<close> (the confirm future's result), \<open>True\<close>
  (what \<open>Event.wait()\<close> returns), and other results of awaited coroutines.
\<close>

datatype pyval = PyNone | PyBool bool | PyInt int | PyStr pystr

datatype exn = ExitRequest | CancelledError | InvalidStateError | OtherError pystr

text \<open>
  An \<open>asyncio\<close> future or task is pending, finished with a result, finished with an
  exception, or cancelled. \<open>fut.done()\<close> holds in the last three states; \<open>fut.result()\<close>
  returns or raises accordingly.
\<close>

datatype task = Pending | Finished pyval | Failed exn | Cancelled

definition fut_done :: "task \<Rightarrow> bool" where
  "fut_done t = (t \<noteq> Pending)"

definition task_result :: "task \<Rightarrow> exn + pyval" where
  "task_result t =
     (case t of
        Finished v \<Rightarrow> Inr v
      | Failed e \<Rightarrow> Inl e
      | Cancelled \<Rightarrow> Inl CancelledError
      | Pending \<Rightarrow> Inl InvalidStateError)"

text \<open>
  A call returns a value, raises, or is still suspended at an \<open>await\<close> because nothing
  has completed what it waits for.
\<close>

datatype 'a outcome = Returned 'a | Raised exn | Blocked

text \<open>
  The state of the GUI that the rendezvous code reads and writes. Futures and tasks are
  objects shared between the code that awaits them and the code that completes them, so
  they live in a store addressed by numbers; \<open>next_future\<close> is the next free address.
  \<open>close_requested\<close> is the flag of the \<open>asyncio.Event\<close> \<open>GUIManager._close_requested\<close> and
  \<open>close_waiters\<close> are the tasks suspended in its \<open>wait()\<close>. The rest are the widgets of
  \<open>LoginForm\<close>: the texts of the three line edits and of the two labels, whether the two
  buttons are enabled, and the slot \<open>_confirm_future\<close>.
\<close>

record gui =
  futures :: "nat \<Rightarrow> task"
  next_future :: nat
  close_requested :: bool
  close_waiters :: "nat list"
  login_text :: pystr
  password_text :: pystr
  token_text :: pystr
  confirm_enabled :: bool
  logout_enabled :: bool
  status_label :: pystr
  user_label :: pystr
  confirm_future :: "nat option"

definition create_future :: "gui \<Rightarrow> nat \<times> gui" where
  "create_future g =
     (next_future g,
      g\<lparr>futures := (futures g)(next_future g := Pending), next_future := Suc (next_future g)\<rparr>)"

text \<open>\<open>fut.set_result(v)\<close> raises \<open>InvalidStateError\<close> on a future that is done.\<close>

definition set_result :: "nat \<Rightarrow> pyval \<Rightarrow> gui \<Rightarrow> exn + gui" where
  "set_result a v g =
     (if fut_done (futures g a) then Inl InvalidStateError
      else Inr (g\<lparr>futures := (futures g)(a := Finished v)\<rparr>))"

text \<open>
  \<open>task.cancel()\<close> changes nothing on a task that is done. A pending one becomes cancelled;
  if it was suspended in \<open>Event.wait()\<close>, that method's \<open>finally\<close> takes it out of the
  event's waiters.
\<close>

definition cancel :: "nat \<Rightarrow> gui \<Rightarrow> gui" where
  "cancel a g =
     (if fut_done (futures g a) then g
      else g\<lparr>futures := (futures g)(a := Cancelled),
             close_waiters := removeAll a (close_waiters g)\<rparr>)"

text \<open>
  \<open>asyncio.ensure_future(event.wait())\<close>: a new task running \<open>Event.wait()\<close>, which
  returns \<open>True\<close> at once when the flag is set and otherwise joins the waiters.
  \<open>Event.set()\<close> does nothing when the flag is set already; otherwise it sets the flag and
  lets every waiter return \<open>True\<close>. \<open>Event.clear()\<close> resets the flag.
\<close>

definition event_wait :: "gui \<Rightarrow> nat \<times> gui" where
  "event_wait g =
     (let w = next_future g in
      if close_requested g
      then (w, g\<lparr>futures := (futures g)(w := Finished (PyBool True)), next_future := Suc w\<rparr>)
      else (w, g\<lparr>futures := (futures g)(w := Pending), next_future := Suc w,
                  close_waiters := close_waiters g @ [w]\<rparr>))"

definition event_set :: "gui \<Rightarrow> gui" where
  "event_set g =
     (if close_requested g then g
      else g\<lparr>futures := (\<lambda>a. if a \<in> set (close_waiters g) \<and> futures g a = Pending
                              then Finished (PyBool True) else futures g a),
             close_requested := True,
             close_waiters := []\<rparr>)"

definition event_clear :: "gui \<Rightarrow> gui" where
  "event_clear g = g\<lparr>close_requested := False\<rparr>"

section \<open>GUIManager: close coordination\<close>

text \<open>
  \<open>GUIManager.close\<close> sets the event (and then tells the client to close and returns 0),
  \<open>prevent_close\<close> clears it.
\<close>

definition close :: "gui \<Rightarrow> gui" where
  "close g = event_set g"

definition prevent_close :: "gui \<Rightarrow> gui" where
  "prevent_close g = event_clear g"

text \<open>
  \<open>wait_until_closed\<close> awaits \<open>Event.wait()\<close>: it starts the wait and is over once that wait
  is.
\<close>

definition wait_until_closed_begin :: "gui \<Rightarrow> nat \<times> gui" where
  "wait_until_closed_begin g = event_wait g"


text \<open>
  \<open>coro_unless_closed(coro)\<close> in two halves, before and after its one suspension point
  \<open>await asyncio.wait(tasks, return_when=FIRST_COMPLETED)\<close>. The first half makes the two
  tasks: the awaited one (a future is taken as it is) and a wait on the close event. The
  second half runs when the caller is woken. If the caller itself was cancelled,
  \<open>CancelledError\<close> comes out of the \<open>await\<close> and nothing else runs. Otherwise
  \<open>asyncio.wait\<close> returns only once one of the two tasks is done; the tasks still
  pending are cancelled, the flag is read, and either \<open>ExitRequest\<close> is raised or a task
  that is done is awaited. When both are done, which one \<open>next(iter(done))\<close> yields is up
  to the set's iteration order: the flag \<open>pick\<close> of the wake-up says whether it is the
  awaited task.
\<close>

datatype wake = Resume bool | CancelTask

definition coro_unless_closed_begin :: "nat \<Rightarrow> gui \<Rightarrow> (nat \<times> nat) \<times> gui" where
  "coro_unless_closed_begin coro g = (let (w, g') = event_wait g in ((coro, w), g'))"

definition coro_unless_closed_resume :: "wake \<Rightarrow> nat \<times> nat \<Rightarrow> gui \<Rightarrow> pyval outcome \<times> gui" where
  "coro_unless_closed_resume wk tasks g =
     (case wk of
        CancelTask \<Rightarrow> (Raised CancelledError, g)
      | Resume pick \<Rightarrow>
          (let c = fst tasks; w = snd tasks in
           if \<not> fut_done (futures g c) \<and> \<not> fut_done (futures g w) then (Blocked, g)
           else
             let first_done =
                   (if fut_done (futures g c) \<and> (\<not> fut_done (futures g w) \<or> pick) then c else w);
                 g' = cancel w (cancel c g)
             in if close_requested g' then (Raised ExitRequest, g')
                else (case task_result (futures g' first_done) of
                        Inl e \<Rightarrow> (Raised e, g')
                      | Inr v \<Rightarrow> (Returned v, g'))))"

section \<open>LoginForm\<close>

text \<open>
  \<open>LoginForm._on_confirm\<close>, the slot of the confirm button (Isabelle names cannot start
  with an underscore).
\<close>

definition on_confirm :: "gui \<Rightarrow> exn + gui" where
  "on_confirm g =
     (case confirm_future g of
        None \<Rightarrow> Inr g
      | Some fut \<Rightarrow>
          if \<not> fut_done (futures g fut) then set_result fut PyNone g else Inr g)"

definition clear :: "bool \<Rightarrow> bool \<Rightarrow> bool \<Rightarrow> gui \<Rightarrow> gui" where
  "clear lg pw tk g =
     (let clear_all = \<not> lg \<and> \<not> pw \<and> \<not> tk;
          g1 = (if lg \<or> clear_all then g\<lparr>login_text := []\<rparr> else g);
          g2 = (if pw \<or> clear_all then g1\<lparr>password_text := []\<rparr> else g1)
      in if tk \<or> clear_all then g2\<lparr>token_text := []\<rparr> else g2)"

text \<open>
  What other code does on the event loop while a task is suspended: the user edits a line
  edit or clicks the confirm button (a disabled button emits no click; an exception
  raised in a slot does not change the state), \<open>GUIManager.close()\<close> is called (by the
  window's close event or a signal handler), \<open>prevent_close()\<close> is called, or some task
  finishes.
\<close>

datatype gui_event =
    TypeLogin pystr
  | TypePassword pystr
  | TypeToken pystr
  | ClickConfirm
  | CallClose
  | CallPreventClose
  | TaskDone nat pyval
  | TaskFailed nat exn

fun handle :: "gui \<Rightarrow> gui_event \<Rightarrow> gui" where
  "handle g (TypeLogin s) = g\<lparr>login_text := s\<rparr>"
| "handle g (TypePassword s) = g\<lparr>password_text := s\<rparr>"
| "handle g (TypeToken s) = g\<lparr>token_text := s\<rparr>"
| "handle g ClickConfirm =
     (if confirm_enabled g then (case on_confirm g of Inl e \<Rightarrow> g | Inr g' \<Rightarrow> g') else g)"
| "handle g CallClose = close g"
| "handle g CallPreventClose = prevent_close g"
| "handle g (TaskDone a v) =
     (if fut_done (futures g a) then g else g\<lparr>futures := (futures g)(a := Finished v)\<rparr>)"
| "handle g (TaskFailed a e) =
     (if fut_done (futures g a) then g else g\<lparr>futures := (futures g)(a := Failed e)\<rparr>)"

text \<open>
  One call of \<open>coro_unless_closed\<close>, given what happens while it is suspended and how it
  is woken.
\<close>

definition coro_unless_closed :: "nat \<Rightarrow> gui_event list \<times> wake \<Rightarrow> gui \<Rightarrow> pyval outcome \<times> gui" where
  "coro_unless_closed coro env g =
     (let (tasks, g1) = coro_unless_closed_begin coro g
      in coro_unless_closed_resume (snd env) tasks (foldl handle g1 (fst env)))"

text \<open>
  \<open>LoginForm._wait_for_confirm\<close>. While the call is blocked, control is inside the
  \<open>try\<close>; the \<open>finally\<close> block runs when the awaited call returns or raises.
\<close>

definition wait_for_confirm :: "gui_event list \<times> wake \<Rightarrow> gui \<Rightarrow> unit outcome \<times> gui" where
  "wait_for_confirm env g =
     (let (fut, g1) = create_future g;
          g2 = g1\<lparr>confirm_future := Some fut, confirm_enabled := True\<rparr>;
          (r, g3) = coro_unless_closed fut env g2;
          g4 = g3\<lparr>confirm_enabled := False, confirm_future := None\<rparr>
      in case r of
           Blocked \<Rightarrow> (Blocked, g3)
         | Raised e \<Rightarrow> (Raised e, g4)
         | Returned v \<Rightarrow> (Returned (), g4))"

text \<open>
  \<open>str.strip()\<close> drops the white space at both ends. White space is what
  \<open>str.isspace\<close> accepts: the code points below.
\<close>

definition isspace :: "nat \<Rightarrow> bool" where
  "isspace c =
     ((9 \<le> c \<and> c \<le> 13) \<or> (28 \<le> c \<and> c \<le> 32) \<or> c = 133 \<or> c = 160 \<or> c = 5760
      \<or> (8192 \<le> c \<and> c \<le> 8202) \<or> c = 8232 \<or> c = 8233 \<or> c = 8239 \<or> c = 8287
      \<or> c = 12288)"

definition strip :: "pystr \<Rightarrow> pystr" where
  "strip s = rev (dropWhile isspace (rev (dropWhile isspace s)))"

text \<open>
  \<open>re.match(r"^[a-zA-Z0-9_]+$", s)\<close> finds a match when \<open>s\<close> is a non-empty run of the
  characters of the class, or such a run followed by one final line feed (\<open>$\<close> also
  matches just before a line feed that ends the string).
\<close>

definition word_char :: "nat \<Rightarrow> bool" where
  "word_char c =
     ((97 \<le> c \<and> c \<le> 122) \<or> (65 \<le> c \<and> c \<le> 90) \<or> (48 \<le> c \<and> c \<le> 57) \<or> c = 95)"

definition re_match_username :: "pystr \<Rightarrow> bool" where
  "re_match_username s =
     (let body = (if s \<noteq> [] \<and> last s = newline then butlast s else s)
      in body \<noteq> [] \<and> list_all word_char body)"

record LoginData =
  username :: pystr
  password :: pystr
  token :: pystr

text \<open>\<open>LoginForm.update(status, user_id)\<close>.\<close>

definition LoginForm_update :: "pystr \<Rightarrow> int option \<Rightarrow> gui \<Rightarrow> gui" where
  "LoginForm_update status user_id g =
     g\<lparr>status_label := status,
       user_label := (case user_id of Some i \<Rightarrow> str_int i | None \<Rightarrow> lit ''-''),
       logout_enabled := (user_id \<noteq> None)\<rparr>"

text \<open>
  The body of the loop of \<open>LoginForm.ask_login\<close> after its \<open>await\<close>: the form is read
  into a \<open>LoginData\<close> and checked; \<open>None\<close> stands for \<open>continue\<close>, \<open>Some\<close> for \<open>return\<close>.
\<close>

definition read_login_data :: "gui \<Rightarrow> LoginData" where
  "read_login_data g =
     \<lparr>username = strip (login_text g), password = password_text g,
      token = strip (token_text g)\<rparr>"

definition validate :: "gui \<Rightarrow> LoginData option \<times> gui" where
  "validate g =
     (let login_data = read_login_data g in
      if \<not> (3 \<le> length (username login_data) \<and> length (username login_data) \<le> 25)
         \<or> \<not> re_match_username (username login_data)
      then (None, clear True False False g)
      else if length (password login_data) < 8
      then (None, clear False True False g)
      else if token login_data \<noteq> [] \<and> length (token login_data) < 6
      then (None, clear False False True g)
      else (Some login_data, g))"

text \<open>
  The loop itself. Its input is what happens during each successive wait for the confirm
  button. When that list is used up the loop has not returned and is about to wait again,
  which is reported as \<open>Blocked\<close>.
  \<open>ask_login\<close> first shows the status text \<open>_("gui", "login", "required")\<close>, a parameter
  here. (The calls to \<open>grab_attention\<close> and \<open>print\<close> touch the tray and the console only.)
\<close>

fun ask_login_loop :: "(gui_event list \<times> wake) list \<Rightarrow> gui \<Rightarrow> LoginData outcome \<times> gui" where
  "ask_login_loop [] g = (Blocked, g)"
| "ask_login_loop (env # envs) g =
     (case wait_for_confirm env g of
        (Blocked, g') \<Rightarrow> (Blocked, g')
      | (Raised e, g') \<Rightarrow> (Raised e, g')
      | (Returned _, g') \<Rightarrow>
          (case validate g' of
             (Some login_data, g'') \<Rightarrow> (Returned login_data, g'')
           | (None, g'') \<Rightarrow> ask_login_loop envs g''))"

definition ask_login :: "pystr \<Rightarrow> (gui_event list \<times> wake) list \<Rightarrow> gui \<Rightarrow> LoginData outcome \<times> gui" where
  "ask_login required envs g = ask_login_loop envs (LoginForm_update required None g)"

text \<open>
  The constraints as the specification words them: a user name of 3 to 25 characters
  matching \<open>[A-Za-z0-9_]+\<close>, a password of at least 8 characters, and a token that is
  empty or has at least 6 characters.
\<close>

definition username_shape :: "pystr \<Rightarrow> bool" where
  "username_shape u = (3 \<le> length u \<and> length u \<le> 25 \<and> list_all word_char u)"

definition valid_fields :: "pystr \<Rightarrow> pystr \<Rightarrow> pystr \<Rightarrow> bool" where
  "valid_fields u p t = (username_shape u \<and> 8 \<le> length p \<and> (t = [] \<or> 6 \<le> length t))"

text \<open>
  One confirmation attempt with nothing else going on: the user leaves the given texts
  in the three fields and clicks the confirm button.
\<close>

definition attempt :: "pystr \<times> pystr \<times> pystr \<Rightarrow> gui_event list \<times> wake" where
  "attempt a =
     (case a of (l, p, t) \<Rightarrow> ([TypeLogin l, TypePassword p, TypeToken t, ClickConfirm], Resume True))"

text \<open>
  The state that \<open>GUIManager.__init__\<close> and \<open>LoginForm.__init__\<close> leave: no future yet, the
  close event unset, empty fields, both buttons disabled, no pending request, and the
  status text \<open>_("gui", "login", "logged_out")\<close>, a parameter.
\<close>

definition init_gui :: "pystr \<Rightarrow> gui" where
  "init_gui logged_out =
     LoginForm_update logged_out None
       \<lparr>futures = (\<lambda>_. Pending), next_future = 0, close_requested = False, close_waiters = [],
        login_text = [], password_text = [], token_text = [],
        confirm_enabled = False, logout_enabled = False,
        status_label = [], user_label = [], confirm_future = None\<rparr>"

text \<open>
  The check that \<open>ask_login\<close> applies to the texts of the three fields, and the
  \<open>LoginData\<close> it builds from them: the constraints above on the user name and the token
  with the white space at their ends removed, and on the password as typed.
\<close>

definition accepted :: "pystr \<times> pystr \<times> pystr \<Rightarrow> bool" where
  "accepted a = (case a of (l, p, t) \<Rightarrow> valid_fields (strip l) p (strip t))"

definition login_data_of :: "pystr \<times> pystr \<times> pystr \<Rightarrow> LoginData" where
  "login_data_of a =
     (case a of (l, p, t) \<Rightarrow> \<lparr>username = strip l, password = p, token = strip t\<rparr>)"

text \<open>The initial state with the given texts in the three fields.\<close>

definition form_with :: "pystr \<Rightarrow> pystr \<Rightarrow> pystr \<Rightarrow> gui" where
  "form_with l p t = (init_gui [])\<lparr>login_text := l, password_text := p, token_text := t\<rparr>"


section \<open>Several suspended callers\<close>

text \<open>
  Any number of tasks can be suspended in \<open>coro_unless_closed\<close> or \<open>wait_until_closed\<close> at
  once. The scheduler's view keeps, beside the GUI state, the pair of tasks of every
  suspended \<open>coro_unless_closed\<close> call and the wait of every suspended
  \<open>wait_until_closed\<close> call. An action is an event of the GUI, the creation of a future,
  the start of one of the two calls, or the wake-up of a suspended \<open>coro_unless_closed\<close>
  call, which leaves the list when it returns or raises.
\<close>

record sched =
  gui_of :: gui
  calls :: "(nat \<times> nat) list"
  closed_waits :: "nat list"

datatype action =
    Ev gui_event
  | NewFuture
  | BeginUnlessClosed nat
  | BeginUntilClosed
  | FinishCall nat wake

fun step :: "sched \<Rightarrow> action \<Rightarrow> sched" where
  "step s (Ev e) = s\<lparr>gui_of := handle (gui_of s) e\<rparr>"
| "step s NewFuture = s\<lparr>gui_of := snd (create_future (gui_of s))\<rparr>"
| "step s (BeginUnlessClosed c) =
     (let (t, g') = coro_unless_closed_begin c (gui_of s)
      in s\<lparr>gui_of := g', calls := calls s @ [t]\<rparr>)"
| "step s BeginUntilClosed =
     (let (w, g') = wait_until_closed_begin (gui_of s)
      in s\<lparr>gui_of := g', closed_waits := closed_waits s @ [w]\<rparr>)"
| "step s (FinishCall i wk) =
     (if i < length (calls s)
      then (case coro_unless_closed_resume wk (calls s ! i) (gui_of s) of
              (Blocked, g') \<Rightarrow> s
            | (_, g') \<Rightarrow> s\<lparr>gui_of := g', calls := take i (calls s) @ drop (Suc i) (calls s)\<rparr>)
      else s)"

definition start :: "gui \<Rightarrow> sched" where
  "start g = \<lparr>gui_of = g, calls = [], closed_waits = []\<rparr>"

text \<open>
  The most recent call of \<open>close()\<close> (\<open>True\<close>) or \<open>prevent_close()\<close> (\<open>False\<close>) among some
  actions, if there is one.
\<close>

fun last_close_call :: "action list \<Rightarrow> bool option" where
  "last_close_call [] = None"
| "last_close_call (a # as) =
     (case last_close_call as of
        Some b \<Rightarrow> Some b
      | None \<Rightarrow>
          (case a of
             Ev CallClose \<Rightarrow> Some True
           | Ev CallPreventClose \<Rightarrow> Some False
           | _ \<Rightarrow> None))"






section \<open>WebsocketStatus\<close>

text \<open>
  The table widget is the text of its cells, by row and column, and \<open>_items\<close> is a
  dictionary from row numbers to the status and topic count last given. The constructor
  puts an item into every cell of rows \<open>0\<close> to \<open>MAX_WEBSOCKETS - 1\<close>, so
  \<open>_table.item(idx, col)\<close> exists for the rows \<open>update\<close> writes. \<open>MAX_WEBSOCKETS\<close> and
  \<open>WS_TOPICS_LIMIT\<close> come from the module \<open>constants\<close>; they are parameters.
\<close>

record ws_item =
  status :: pystr
  topics :: int

record websocket_status =
  table :: "int \<Rightarrow> nat \<Rightarrow> pystr"
  items :: "int \<rightharpoonup> ws_item"

definition WebsocketStatus_update ::
  "int \<Rightarrow> int \<Rightarrow> int \<Rightarrow> pystr option \<Rightarrow> int option \<Rightarrow> websocket_status \<Rightarrow> websocket_status" where
  "WebsocketStatus_update MAX_WEBSOCKETS WS_TOPICS_LIMIT idx new_status new_topics ws =
     (if idx < 0 \<or> idx \<ge> MAX_WEBSOCKETS then ws
      else
        let item = (case items ws idx of Some it \<Rightarrow> it | None \<Rightarrow> \<lparr>status = [], topics = 0\<rparr>);
            item1 = (case new_status of Some st \<Rightarrow> item\<lparr>status := st\<rparr> | None \<Rightarrow> item);
            item2 = (case new_topics of Some n \<Rightarrow> item1\<lparr>topics := n\<rparr> | None \<Rightarrow> item1)
        in ws\<lparr>items := (items ws)(idx \<mapsto> item2),
              table := (table ws)
                (idx := (table ws idx)
                   (1 := status item2,
                    2 := str_int (topics item2) @ lit ''/'' @ str_int WS_TOPICS_LIMIT))\<rparr>)"

section \<open>QtImageCache\<close>

text \<open>
  What \<open>get_icon\<close> depends on outside the program is given to the model: the file name
  that \<open>_path_for\<close> derives from the URL's SHA-1 and the size, which byte strings
  \<open>QPixmap.loadFromData\<close> can decode, how the request went, and how saving the file went.
  A raised exception is an instance of \<open>Exception\<close> or lies outside that class (as
  \<open>asyncio.CancelledError\<close> and \<open>KeyboardInterrupt\<close> do); only the first kind is caught
  by \<open>except Exception\<close>.
\<close>

datatype py_raise = ExceptionInstance pystr | BaseExceptionOnly pystr

datatype pixmap = NullPixmap | Transparent int int | Decoded "nat list" | Scaled pixmap int int

datatype icon = QIcon pixmap

datatype fetch = RequestRaises py_raise | Response int "py_raise + nat list"

datatype save = Saved | NotSaved | SaveRaises py_raise

record image_cache =
  mem :: "pystr \<times> int \<times> int \<rightharpoonup> icon"
  disk :: "pystr \<rightharpoonup> pixmap"

text \<open>The \<open>try\<close> block around the request: the bytes read, \<open>None\<close>, or an exception that escapes.\<close>

fun fetch_data :: "fetch \<Rightarrow> py_raise + nat list option" where
  "fetch_data (RequestRaises (ExceptionInstance n)) = Inr None"
| "fetch_data (RequestRaises (BaseExceptionOnly n)) = Inl (BaseExceptionOnly n)"
| "fetch_data (Response st rd) =
     (if st = 200
      then (case rd of
              Inr bytes \<Rightarrow> Inr (Some bytes)
            | Inl (ExceptionInstance n) \<Rightarrow> Inr None
            | Inl (BaseExceptionOnly n) \<Rightarrow> Inl (BaseExceptionOnly n))
      else Inr None)"

definition get_icon ::
  "(pystr \<Rightarrow> int \<Rightarrow> int \<Rightarrow> pystr) \<Rightarrow> (nat list \<Rightarrow> bool) \<Rightarrow> fetch \<Rightarrow> save
   \<Rightarrow> pystr \<Rightarrow> int \<times> int \<Rightarrow> image_cache \<Rightarrow> (py_raise + icon) \<times> image_cache" where
  "get_icon path_for decodable fetched saved url wh cache =
     (let w = fst wh; h = snd wh; key = (url, w, h) in
      case mem cache key of
        Some ic \<Rightarrow> (Inr ic, cache)
      | None \<Rightarrow>
          (let path = path_for url w h in
           case disk cache path of
             Some pix \<Rightarrow> (Inr (QIcon pix), cache\<lparr>mem := (mem cache)(key \<mapsto> QIcon pix)\<rparr>)
           | None \<Rightarrow>
               (case fetch_data fetched of
                  Inl e \<Rightarrow> (Inl e, cache)
                | Inr data \<Rightarrow>
                    (let loaded =
                           (case data of
                              None \<Rightarrow> NullPixmap
                            | Some bytes \<Rightarrow>
                                if bytes \<noteq> [] \<and> decodable bytes then Decoded bytes
                                else NullPixmap);
                         pix = (if loaded = NullPixmap then Transparent w h
                                else Scaled loaded w h)
                     in case saved of
                          SaveRaises (BaseExceptionOnly n) \<Rightarrow> (Inl (BaseExceptionOnly n), cache)
                        | SaveRaises (ExceptionInstance n) \<Rightarrow>
                            (Inr (QIcon pix), cache\<lparr>mem := (mem cache)(key \<mapsto> QIcon pix)\<rparr>)
                        | NotSaved \<Rightarrow>
                            (Inr (QIcon pix), cache\<lparr>mem := (mem cache)(key \<mapsto> QIcon pix)\<rparr>)
                        | Saved \<Rightarrow>
                            (Inr (QIcon pix),
                             cache\<lparr>mem := (mem cache)(key \<mapsto> QIcon pix),
                                   disk := (disk cache)(path \<mapsto> pix)\<rparr>)))))"

text \<open>
  A fetch failure in the specification's words: an exception during the request, a
  status other than 200, or image data that cannot be decoded (an empty body included).
  A failed cache write is \<open>save\<close> returning false or raising an exception.
\<close>

definition fetch_failed :: "(nat list \<Rightarrow> bool) \<Rightarrow> fetch \<Rightarrow> bool" where
  "fetch_failed decodable fetched =
     (case fetched of
        RequestRaises (ExceptionInstance n) \<Rightarrow> True
      | RequestRaises (BaseExceptionOnly n) \<Rightarrow> False
      | Response st rd \<Rightarrow>
          st \<noteq> 200 \<or>
          (case rd of
             Inl (ExceptionInstance n) \<Rightarrow> True
           | Inl (BaseExceptionOnly n) \<Rightarrow> False
           | Inr bytes \<Rightarrow> bytes = [] \<or> \<not> decodable bytes))"

definition save_swallowed :: "save \<Rightarrow> bool" where
  "save_swallowed saved =
     (case saved of SaveRaises (BaseExceptionOnly n) \<Rightarrow> False | _ \<Rightarrow> True)"

section \<open>Console output: one stamped line per line of the message\<close>

lemma split_lines_not_Nil: "split_lines s \<noteq> []"
  by (induction s) auto

lemma split_lines_append_no_newline:
  "newline \<notin> set p \<Longrightarrow> split_lines (p @ s) = (p @ hd (split_lines s)) # tl (split_lines s)"
proof (induction p)
  case Nil
  then show ?case using split_lines_not_Nil [of s] by simp
next
  case (Cons a p)
  then show ?case by simp
qed

lemma replace_char_absent: "c \<notin> set s \<Longrightarrow> replace_char c new s = s"
  by (induction s) auto

lemma split_lines_replace:
  assumes "newline \<notin> set pre"
  shows "split_lines (pre @ replace_char newline (newline # pre) m)
         = map (\<lambda>l. pre @ l) (split_lines m)"
proof (induction m)
  case Nil
  show ?case using split_lines_append_no_newline [OF assms, of "[]"] by simp
next
  case (Cons x m)
  have ne: "split_lines m \<noteq> []" by (rule split_lines_not_Nil)
  show ?case
  proof (cases "x = newline")
    case True
    have "split_lines (pre @ replace_char newline (newline # pre) (x # m))
          = split_lines (pre @ newline # (pre @ replace_char newline (newline # pre) m))"
      using True by simp
    also have "\<dots> = pre # split_lines (pre @ replace_char newline (newline # pre) m)"
      using assms by (simp add: split_lines_append_no_newline)
    finally show ?thesis using Cons True by simp
  next
    case False
    have "split_lines (pre @ replace_char newline (newline # pre) (x # m))
          = split_lines (pre @ x # replace_char newline (newline # pre) m)"
      using False by simp
    also have "\<dots> = (pre @ x # hd (split_lines (replace_char newline (newline # pre) m)))
                       # tl (split_lines (replace_char newline (newline # pre) m))"
      using assms False by (simp add: split_lines_append_no_newline)
    finally have a: "split_lines (pre @ replace_char newline (newline # pre) (x # m))
          = (pre @ x # hd (split_lines (replace_char newline (newline # pre) m)))
                       # tl (split_lines (replace_char newline (newline # pre) m))" .
    have b: "split_lines (pre @ replace_char newline (newline # pre) m)
             = (pre @ hd (split_lines (replace_char newline (newline # pre) m)))
               # tl (split_lines (replace_char newline (newline # pre) m))"
      using assms by (simp add: split_lines_append_no_newline)
    from Cons b have c:
      "(pre @ hd (split_lines (replace_char newline (newline # pre) m)))
               # tl (split_lines (replace_char newline (newline # pre) m))
       = map (\<lambda>l. pre @ l) (split_lines m)" by simp
    from c ne have d: "hd (split_lines (replace_char newline (newline # pre) m)) = hd (split_lines m)"
      and e: "tl (split_lines (replace_char newline (newline # pre) m))
              = map (\<lambda>l. pre @ l) (tl (split_lines m))"
      by (cases "split_lines m"; simp)+
    show ?thesis using a d e False ne by (cases "split_lines m") simp_all
  qed
qed

lemma lit_colon_no_newline: "newline \<notin> set (lit '': '')"
  by (simp add: lit_def newline_def)

text \<open>
  C9. Whatever the message, the text that \<open>ConsoleOutput.print\<close> appends has exactly one
  line per line of the message (lines being the pieces between line feeds), and each of
  them, a line of a multi-line message too, is that line of the message behind the stamp
  and \<open>": "\<close>. The stamp is a clock reading and holds no line feed.
\<close>

theorem print_stamps_every_line:
  assumes "newline \<notin> set stamp"
  shows "split_lines (last (ConsoleOutput_print stamp message output))
         = map (\<lambda>l. stamp @ lit '': '' @ l) (split_lines message)"
proof -
  let ?pre = "stamp @ lit '': ''"
  have pre: "newline \<notin> set ?pre" using assms lit_colon_no_newline by simp
  show ?thesis
  proof (cases "newline \<in> set message")
    case True
    then have "stamped stamp message = ?pre @ replace_char newline (newline # ?pre) message"
      by (simp add: stamped_def)
    then show ?thesis using split_lines_replace [OF pre, of message]
      by (simp add: ConsoleOutput_print_def)
  next
    case False
    then have "stamped stamp message = ?pre @ replace_char newline (newline # ?pre) message"
      by (simp add: stamped_def replace_char_absent)
    then show ?thesis using split_lines_replace [OF pre, of message]
      by (simp add: ConsoleOutput_print_def)
  qed
qed

theorem print_stamps_every_line_witness:
  "newline \<notin> set (lit ''12:00:01'') \<and>
   split_lines (last (ConsoleOutput_print (lit ''12:00:01'') (lit ''up\<newline>down'') []))
     = [lit ''12:00:01: up'', lit ''12:00:01: down'']"
proof -
  have h: "newline \<notin> set (lit ''12:00:01'')" by (simp add: lit_def newline_def)
  have s: "split_lines (lit ''up\<newline>down'') = [lit ''up'', lit ''down'']"
    by (simp add: lit_def newline_def)
  show ?thesis
    using h print_stamps_every_line [OF h, of "lit ''up\<newline>down''" "[]"] s
    by (simp add: lit_def)
qed

section \<open>The confirm button's slot\<close>

lemma init_gui_simps [simp]:
  "confirm_future (init_gui t) = None" "close_requested (init_gui t) = False"
  "next_future (init_gui t) = 0" "confirm_enabled (init_gui t) = False"
  "close_waiters (init_gui t) = []" "futures (init_gui t) = (\<lambda>_. Pending)"
  by (simp_all add: init_gui_def LoginForm_update_def)

lemmas rendezvous_defs =
  wait_for_confirm_def coro_unless_closed_def coro_unless_closed_begin_def
  coro_unless_closed_resume_def create_future_def event_wait_def event_set_def
  event_clear_def close_def prevent_close_def on_confirm_def set_result_def fut_done_def
  cancel_def task_result_def Let_def

text \<open>
  C3. When no confirmation request is outstanding, that is when the slot
  \<open>_confirm_future\<close> is empty or holds a future that is done, \<open>_on_confirm\<close> raises
  nothing and leaves the whole state as it was. In any state a call raises nothing, and a
  second call right after it changes nothing more.
\<close>

theorem on_confirm_without_request:
  "(confirm_future g = None \<or> (\<exists>fut. confirm_future g = Some fut \<and> fut_done (futures g fut))
      \<longrightarrow> on_confirm g = Inr g)
   \<and> (\<exists>g'. on_confirm g = Inr g' \<and> on_confirm g' = Inr g')"
  by (auto simp: on_confirm_def set_result_def fut_done_def split: option.splits)

theorem on_confirm_without_request_witness:
  "confirm_future (init_gui []) = None \<and> on_confirm (init_gui []) = Inr (init_gui [])"
  using on_confirm_without_request [of "init_gui []"] by simp

section \<open>The confirmation rendezvous releases what it acquired\<close>

text \<open>
  C1. Whenever \<open>_wait_for_confirm\<close> returns or lets an exception through, whatever
  happened while it was suspended and however it was woken (the future resolved, the
  close event set, the awaiting task cancelled), the confirm button is disabled again and
  the slot \<open>_confirm_future\<close> is empty in the state it leaves.
\<close>

theorem wait_for_confirm_releases:
  assumes "fst (wait_for_confirm env g) \<noteq> Blocked"
  shows "\<not> confirm_enabled (snd (wait_for_confirm env g))
         \<and> confirm_future (snd (wait_for_confirm env g)) = None"
  using assms
  by (auto simp: wait_for_confirm_def Let_def split: prod.splits outcome.splits)

theorem wait_for_confirm_releases_witness:
  "fst (wait_for_confirm ([ClickConfirm], Resume True) (init_gui [])) = Returned ()
   \<and> \<not> confirm_enabled (snd (wait_for_confirm ([ClickConfirm], Resume True) (init_gui [])))
   \<and> confirm_future (snd (wait_for_confirm ([ClickConfirm], Resume True) (init_gui []))) = None
   \<and> fst (wait_for_confirm ([CallClose], Resume True) (init_gui [])) = Raised ExitRequest
   \<and> \<not> confirm_enabled (snd (wait_for_confirm ([CallClose], Resume True) (init_gui [])))
   \<and> confirm_future (snd (wait_for_confirm ([CallClose], Resume True) (init_gui []))) = None
   \<and> fst (wait_for_confirm ([], CancelTask) (init_gui [])) = Raised CancelledError
   \<and> \<not> confirm_enabled (snd (wait_for_confirm ([], CancelTask) (init_gui [])))
   \<and> confirm_future (snd (wait_for_confirm ([], CancelTask) (init_gui []))) = None"
proof -
  have a: "fst (wait_for_confirm ([ClickConfirm], Resume True) (init_gui [])) = Returned ()"
    by (simp add: rendezvous_defs)
  have b: "fst (wait_for_confirm ([CallClose], Resume True) (init_gui [])) = Raised ExitRequest"
    by (simp add: rendezvous_defs)
  have c: "fst (wait_for_confirm ([], CancelTask) (init_gui [])) = Raised CancelledError"
    by (simp add: rendezvous_defs)
  show ?thesis
    using a b c
      wait_for_confirm_releases [of "([ClickConfirm], Resume True)" "init_gui []"]
      wait_for_confirm_releases [of "([CallClose], Resume True)" "init_gui []"]
      wait_for_confirm_releases [of "([], CancelTask)" "init_gui []"]
    by simp
qed

section \<open>The race against the close event\<close>




section \<open>The close flag follows the last call of close or prevent_close\<close>

lemma step_flag:
  "close_requested (gui_of (step s a)) =
     (case a of
        Ev CallClose \<Rightarrow> True
      | Ev CallPreventClose \<Rightarrow> False
      | _ \<Rightarrow> close_requested (gui_of s))"
proof (cases a)
  case (Ev e)
  then show ?thesis
    by (cases e)
      (auto simp: close_def event_set_def prevent_close_def event_clear_def on_confirm_def
         set_result_def split: option.splits)
next
  case NewFuture
  then show ?thesis by (simp add: create_future_def)
next
  case (BeginUnlessClosed c)
  then show ?thesis
    by (simp add: coro_unless_closed_begin_def event_wait_def Let_def split: prod.splits)
next
  case BeginUntilClosed
  then show ?thesis
    by (simp add: wait_until_closed_begin_def event_wait_def Let_def split: prod.splits)
next
  case (FinishCall i wk)
  then show ?thesis
    by (auto simp: coro_unless_closed_resume_def Let_def cancel_def
          split: prod.splits outcome.splits wake.splits sum.splits)
qed

lemma flag_after_actions:
  "close_requested (gui_of (foldl step s as)) =
     (case last_close_call as of None \<Rightarrow> close_requested (gui_of s) | Some b \<Rightarrow> b)"
proof (induction as arbitrary: s)
  case Nil
  then show ?case by simp
next
  case (Cons a as)
  show ?case
    by (simp add: Cons.IH step_flag split: option.splits action.splits gui_event.splits)
qed

lemma close_after_prevent_close:
  "fst (coro_unless_closed c ([CallClose], Resume pick) (prevent_close g)) = Raised ExitRequest"
  by (simp add: rendezvous_defs)

text \<open>
  C7. After any sequence of actions on the event loop, the close flag is set exactly when
  the most recent call among \<open>close()\<close> and \<open>prevent_close()\<close> was \<open>close()\<close>, and it
  keeps its earlier value when neither was called: nothing but \<open>prevent_close\<close> clears
  it and nothing but \<open>close\<close> sets it. After \<open>prevent_close()\<close> a later \<open>close()\<close> arms
  cancellation again: a \<open>coro_unless_closed\<close> call started after the one and suspended
  during the other raises \<open>ExitRequest\<close>.
\<close>

theorem close_flag_follows_last_call:
  "close_requested (gui_of (foldl step s as)) =
     (case last_close_call as of None \<Rightarrow> close_requested (gui_of s) | Some b \<Rightarrow> b)
   \<and> fst (coro_unless_closed c ([CallClose], Resume pick) (prevent_close g)) = Raised ExitRequest"
  using flag_after_actions close_after_prevent_close by simp

theorem close_flag_follows_last_call_witness:
  "close_requested (gui_of (foldl step (start (init_gui []))
      [Ev CallClose, Ev CallPreventClose, NewFuture, BeginUnlessClosed 0, Ev CallClose,
       BeginUntilClosed]))
   \<and> \<not> close_requested (gui_of (foldl step (start (init_gui []))
      [Ev CallClose, BeginUntilClosed, Ev CallPreventClose, Ev ClickConfirm]))
   \<and> fst (coro_unless_closed 0 ([CallClose], Resume True)
            (prevent_close (close (snd (create_future (init_gui [])))))) = Raised ExitRequest"
  using
    close_flag_follows_last_call [of "start (init_gui [])"
      "[Ev CallClose, Ev CallPreventClose, NewFuture, BeginUnlessClosed 0, Ev CallClose,
        BeginUntilClosed]" 0 True "close (snd (create_future (init_gui [])))"]
    close_flag_follows_last_call [of "start (init_gui [])"
      "[Ev CallClose, BeginUntilClosed, Ev CallPreventClose, Ev ClickConfirm]"
      0 True "close (snd (create_future (init_gui [])))"]
  by (simp add: start_def)

section \<open>Icons: a failed fetch gives a blank placeholder\<close>

lemma fetch_failed_data:
  "fetch_failed decodable fetched \<Longrightarrow>
   fetch_data fetched = Inr None
   \<or> (\<exists>b. fetch_data fetched = Inr (Some b) \<and> (b = [] \<or> \<not> decodable b))"
  by (cases fetched) (auto simp: fetch_failed_def split: py_raise.splits sum.splits)

lemma get_icon_placeholder:
  assumes "mem cache (url, w, h) = None" and "disk cache (path_for url w h) = None"
    and "fetch_failed decodable fetched" and "save_swallowed saved"
  shows "fst (get_icon path_for decodable fetched saved url (w, h) cache)
         = Inr (QIcon (Transparent w h))"
  using fetch_failed_data [OF assms(3)] assms(1,2,4)
  by (auto simp: get_icon_def Let_def save_swallowed_def split: save.splits py_raise.splits)

lemma get_icon_no_exception:
  "fst (get_icon path_for decodable fetched saved url wh cache) \<noteq> Inl (ExceptionInstance n)"
proof (cases fetched)
  case (RequestRaises r)
  then show ?thesis
    by (cases r)
      (auto simp: get_icon_def Let_def
         split: option.splits save.splits py_raise.splits sum.splits)
next
  case (Response st rd)
  then show ?thesis
    by (auto simp: get_icon_def Let_def
          split: option.splits save.splits py_raise.splits sum.splits)
qed

text \<open>
  C8. For every URL and size, \<open>get_icon\<close> never lets an exception of the class
  \<open>Exception\<close> out, whether it comes from the request, from reading the response or from
  saving the file. When the icon is in neither cache and the fetch fails (an exception
  during the request or the read, a status other than 200, or data that cannot be
  decoded), the call returns an icon made of a transparent pixmap of the requested size,
  also when the write to the cache fails.
\<close>

theorem get_icon_never_propagates:
  "(mem cache (url, w, h) = None \<and> disk cache (path_for url w h) = None
      \<and> fetch_failed decodable fetched \<and> save_swallowed saved
      \<longrightarrow> fst (get_icon path_for decodable fetched saved url (w, h) cache)
            = Inr (QIcon (Transparent w h)))
   \<and> (\<forall>n. fst (get_icon path_for decodable fetched saved url (w, h) cache)
            \<noteq> Inl (ExceptionInstance n))"
  using get_icon_placeholder get_icon_no_exception by blast

theorem get_icon_never_propagates_witness:
  "mem \<lparr>mem = Map.empty, disk = Map.empty\<rparr> (lit ''u'', 24, 24) = None
   \<and> disk \<lparr>mem = Map.empty, disk = Map.empty\<rparr> (lit ''u.png'') = None
   \<and> fetch_failed (\<lambda>b. True) (Response 404 (Inr [1, 2]))
   \<and> save_swallowed (SaveRaises (ExceptionInstance (lit ''OSError'')))
   \<and> fst (get_icon (\<lambda>u w h. lit ''u.png'') (\<lambda>b. True) (Response 404 (Inr [1, 2]))
            (SaveRaises (ExceptionInstance (lit ''OSError''))) (lit ''u'') (24, 24)
            \<lparr>mem = Map.empty, disk = Map.empty\<rparr>)
       = Inr (QIcon (Transparent 24 24))"
  using get_icon_never_propagates [of "\<lparr>mem = Map.empty, disk = Map.empty\<rparr>" "lit ''u''" 24 24
      "\<lambda>u w h. lit ''u.png''" "\<lambda>b. True" "Response 404 (Inr [1, 2])"
      "SaveRaises (ExceptionInstance (lit ''OSError''))"]
  by (simp add: fetch_failed_def save_swallowed_def)

section \<open>WebsocketStatus.update\<close>

text \<open>
  C10. For an index outside \<open>0 \<le> idx < MAX_WEBSOCKETS\<close>, \<open>update\<close> leaves the table and
  the items as they were (and raises nothing). For an index inside, it writes the status
  into column 1 and the topic count, rendered as \<open>topics/WS_TOPICS_LIMIT\<close>, into column 2
  of that row, where a status or count that was not supplied is the one remembered for
  the row (empty and 0 when there is none); the row's entry of the items holds both, and
  no other cell and no other entry changes.
\<close>

theorem websocket_update_in_and_out_of_range:
  "(idx < 0 \<or> idx \<ge> M \<longrightarrow> WebsocketStatus_update M L idx st tp ws = ws)
   \<and> (0 \<le> idx \<and> idx < M \<longrightarrow>
       (let old = (case items ws idx of Some it \<Rightarrow> it | None \<Rightarrow> \<lparr>status = [], topics = 0\<rparr>);
            s' = (case st of Some s \<Rightarrow> s | None \<Rightarrow> status old);
            t' = (case tp of Some n \<Rightarrow> n | None \<Rightarrow> topics old);
            ws' = WebsocketStatus_update M L idx st tp ws
        in table ws' idx 1 = s'
         \<and> table ws' idx 2 = str_int t' @ lit ''/'' @ str_int L
         \<and> items ws' idx = Some \<lparr>status = s', topics = t'\<rparr>
         \<and> (\<forall>r c. r \<noteq> idx \<or> (c \<noteq> 1 \<and> c \<noteq> 2) \<longrightarrow> table ws' r c = table ws r c)
         \<and> (\<forall>j. j \<noteq> idx \<longrightarrow> items ws' j = items ws j)))"
  by (auto simp: WebsocketStatus_update_def Let_def split: option.splits)

theorem websocket_update_in_and_out_of_range_witness:
  "WebsocketStatus_update 8 50 8 (Some (lit ''up'')) (Some 3)
      \<lparr>table = (\<lambda>r c. []), items = Map.empty\<rparr>
     = \<lparr>table = (\<lambda>r c. []), items = Map.empty\<rparr>
   \<and> table (WebsocketStatus_update 8 50 2 (Some (lit ''up'')) None
        \<lparr>table = (\<lambda>r c. []), items = Map.empty\<rparr>) 2 1 = lit ''up''
   \<and> table (WebsocketStatus_update 8 50 2 (Some (lit ''up'')) None
        \<lparr>table = (\<lambda>r c. []), items = Map.empty\<rparr>) 2 2 = lit ''0/50''
   \<and> table (WebsocketStatus_update 8 50 2 None (Some 17)
        \<lparr>table = (\<lambda>r c. []), items = [2 \<mapsto> \<lparr>status = lit ''up'', topics = 0\<rparr>]\<rparr>) 2 1 = lit ''up''
   \<and> table (WebsocketStatus_update 8 50 2 None (Some 17)
        \<lparr>table = (\<lambda>r c. []), items = [2 \<mapsto> \<lparr>status = lit ''up'', topics = 0\<rparr>]\<rparr>) 2 2 = lit ''17/50''"
  using
    websocket_update_in_and_out_of_range [of 8 8 50 "Some (lit ''up'')" "Some 3"
      "\<lparr>table = (\<lambda>r c. []), items = Map.empty\<rparr>"]
    websocket_update_in_and_out_of_range [of 2 8 50 "Some (lit ''up'')" None
      "\<lparr>table = (\<lambda>r c. []), items = Map.empty\<rparr>"]
    websocket_update_in_and_out_of_range [of 2 8 50 None "Some 17"
      "\<lparr>table = (\<lambda>r c. []), items = [2 \<mapsto> \<lparr>status = lit ''up'', topics = 0\<rparr>]\<rparr>"]
  by (simp add: Let_def str_int_def str_nat.simps lit_def)

section \<open>The login loop: what a rejection clears\<close>

lemma isspace_newline: "isspace newline"
  by (simp add: isspace_def newline_def)

lemma strip_last_not_space: "strip s \<noteq> [] \<Longrightarrow> \<not> isspace (last (strip s))"
proof -
  assume ne: "strip s \<noteq> []"
  let ?d = "dropWhile isspace (rev (dropWhile isspace s))"
  from ne have d: "?d \<noteq> []" by (simp add: strip_def)
  then have "\<not> isspace (hd ?d)" by (rule hd_dropWhile)
  moreover have "last (strip s) = hd ?d" using d by (simp add: strip_def last_rev)
  ultimately show ?thesis by simp
qed

lemma re_match_strip:
  "re_match_username (strip s) = (strip s \<noteq> [] \<and> list_all word_char (strip s))"
proof (cases "strip s = []")
  case True
  then show ?thesis by (simp add: re_match_username_def)
next
  case False
  then have "last (strip s) \<noteq> newline"
    using strip_last_not_space [of s] isspace_newline by auto
  then show ?thesis using False by (simp add: re_match_username_def)
qed

lemma username_check:
  "(3 \<le> length (strip s) \<and> length (strip s) \<le> 25 \<and> re_match_username (strip s))
   = username_shape (strip s)"
  by (auto simp: re_match_strip username_shape_def)

lemma clear_one:
  "clear True False False g = g\<lparr>login_text := []\<rparr>"
  "clear False True False g = g\<lparr>password_text := []\<rparr>"
  "clear False False True g = g\<lparr>token_text := []\<rparr>"
  by (simp_all add: clear_def)

lemma validate_cases:
  "validate g =
     (if \<not> username_shape (strip (login_text g)) then (None, g\<lparr>login_text := []\<rparr>)
      else if length (password_text g) < 8 then (None, g\<lparr>password_text := []\<rparr>)
      else if strip (token_text g) \<noteq> [] \<and> length (strip (token_text g)) < 6
        then (None, g\<lparr>token_text := []\<rparr>)
      else (Some (read_login_data g), g))"
  using username_check [of "login_text g"]
  by (auto simp: validate_def read_login_data_def Let_def clear_one)

text \<open>
  C5, as stated, has every user name outside the shape \<open>[A-Za-z0-9_]{3,25}\<close> rejected
  with the login field cleared and the password and token fields kept. It is not so for
  the user name as entered: with \<open>"abc "\<close> (a trailing space) in the login field, which
  is outside the shape, and \<open>"short"\<close> in the password field, the rejection leaves the
  login field as it is and clears the password field.
\<close>

theorem untrimmed_username_counterexample:
  "\<not> username_shape (lit ''abc '')
   \<and> validate (form_with (lit ''abc '') (lit ''short'') [])
       = (None, (form_with (lit ''abc '') (lit ''short'') [])\<lparr>password_text := []\<rparr>)
   \<and> login_text (snd (validate (form_with (lit ''abc '') (lit ''short'') []))) = lit ''abc ''
   \<and> password_text (snd (validate (form_with (lit ''abc '') (lit ''short'') [])))
       \<noteq> password_text (form_with (lit ''abc '') (lit ''short'') [])"
proof -
  have s: "strip (lit ''abc '') = lit ''abc''"
    by (simp add: strip_def lit_def isspace_def)
  have a: "\<not> username_shape (lit ''abc '')" "username_shape (lit ''abc'')"
    by (simp_all add: username_shape_def lit_def word_char_def)
  have l: "length (lit ''short'') < 8" "lit ''short'' \<noteq> []"
    by (simp_all add: lit_def)
  show ?thesis
    using s a l validate_cases [of "form_with (lit ''abc '') (lit ''short'') []"]
    by (simp add: form_with_def)
qed

text \<open>
  C5, amended. The shape is required of the user name that the loop reads, the text of
  the login field without the white space at its ends. When that user name is outside the
  shape \<open>[A-Za-z0-9_]{3,25}\<close>, the loop goes round again with the login field cleared and
  everything else, the password and token fields included, as it was. When the user name
  is fine and the password is shorter than 8, only the password field is cleared; when
  both are fine and the token is neither empty nor of length 6 or more, only the token
  field is cleared.
\<close>

theorem rejection_clears_only_offending_field:
  "(\<not> username_shape (username (read_login_data g))
      \<longrightarrow> validate g = (None, g\<lparr>login_text := []\<rparr>))
   \<and> (username_shape (username (read_login_data g)) \<and> length (password (read_login_data g)) < 8
      \<longrightarrow> validate g = (None, g\<lparr>password_text := []\<rparr>))
   \<and> (username_shape (username (read_login_data g)) \<and> 8 \<le> length (password (read_login_data g))
        \<and> token (read_login_data g) \<noteq> [] \<and> length (token (read_login_data g)) < 6
      \<longrightarrow> validate g = (None, g\<lparr>token_text := []\<rparr>))"
  by (simp add: validate_cases read_login_data_def)

theorem rejection_clears_only_offending_field_witness:
  "\<not> username_shape (username (read_login_data (form_with (lit ''ab'') (lit ''short'') (lit ''123''))))
   \<and> validate (form_with (lit ''ab'') (lit ''short'') (lit ''123''))
       = (None, (form_with (lit ''ab'') (lit ''short'') (lit ''123''))\<lparr>login_text := []\<rparr>)
   \<and> password_text (snd (validate (form_with (lit ''ab'') (lit ''short'') (lit ''123''))))
       = lit ''short''
   \<and> token_text (snd (validate (form_with (lit ''ab'') (lit ''short'') (lit ''123''))))
       = lit ''123''
   \<and> username_shape (username (read_login_data (form_with (lit ''valid_user'') (lit ''short'') (lit ''123''))))
   \<and> validate (form_with (lit ''valid_user'') (lit ''short'') (lit ''123''))
       = (None, (form_with (lit ''valid_user'') (lit ''short'') (lit ''123''))\<lparr>password_text := []\<rparr>)
   \<and> validate (form_with (lit ''valid_user'') (lit ''longenough1'') (lit ''123''))
       = (None, (form_with (lit ''valid_user'') (lit ''longenough1'') (lit ''123''))\<lparr>token_text := []\<rparr>)"
proof -
  have s: "strip (lit ''ab'') = lit ''ab''" "strip (lit ''valid_user'') = lit ''valid_user''"
    "strip (lit ''123'') = lit ''123''"
    by (simp_all add: strip_def lit_def isspace_def)
  have a: "\<not> username_shape (lit ''ab'')" "username_shape (lit ''valid_user'')"
    by (simp_all add: username_shape_def lit_def word_char_def)
  have l: "length (lit ''short'') < 8" "8 \<le> length (lit ''longenough1'')"
    "lit ''123'' \<noteq> []" "length (lit ''123'') < 6"
    by (simp_all add: lit_def)
  show ?thesis
    using s a l
      rejection_clears_only_offending_field [of "form_with (lit ''ab'') (lit ''short'') (lit ''123'')"]
      rejection_clears_only_offending_field [of "form_with (lit ''valid_user'') (lit ''short'') (lit ''123'')"]
      rejection_clears_only_offending_field [of "form_with (lit ''valid_user'') (lit ''longenough1'') (lit ''123'')"]
    by (simp add: read_login_data_def form_with_def)
qed

section \<open>The login loop: when it returns and what\<close>

lemma validate_accepts:
  "accepted (login_text g, password_text g, token_text g) \<Longrightarrow>
   validate g = (Some (login_data_of (login_text g, password_text g, token_text g)), g)"
  by (auto simp: validate_cases accepted_def valid_fields_def login_data_of_def read_login_data_def)

lemma validate_rejects:
  "\<not> accepted (login_text g, password_text g, token_text g) \<Longrightarrow>
   \<exists>g'. validate g = (None, g') \<and> close_requested g' = close_requested g"
  by (auto simp: validate_cases accepted_def valid_fields_def)

lemma attempt_round:
  assumes "\<not> close_requested g"
  shows "\<exists>g1. wait_for_confirm (attempt (l, p, t)) g = (Returned (), g1)
           \<and> login_text g1 = l \<and> password_text g1 = p \<and> token_text g1 = t
           \<and> \<not> close_requested g1"
  using assms by (simp add: attempt_def rendezvous_defs)

lemma loop_accepts:
  assumes "\<not> close_requested g" and "accepted a"
  shows "fst (ask_login_loop (attempt a # envs) g) = Returned (login_data_of a)"
proof -
  obtain l p t where a: "a = (l, p, t)" by (cases a) auto
  obtain g1 where w: "wait_for_confirm (attempt (l, p, t)) g = (Returned (), g1)"
    and f: "login_text g1 = l" "password_text g1 = p" "token_text g1 = t"
    using attempt_round [OF assms(1), of l p t] by auto
  have "validate g1 = (Some (login_data_of (l, p, t)), g1)"
    using validate_accepts [of g1] assms(2) f a by simp
  then show ?thesis using w a by simp
qed

lemma loop_rejects:
  assumes "\<not> close_requested g" and "\<not> accepted a"
  shows "\<exists>g'. \<not> close_requested g'
            \<and> ask_login_loop (attempt a # envs) g = ask_login_loop envs g'"
proof -
  obtain l p t where a: "a = (l, p, t)" by (cases a) auto
  obtain g1 where w: "wait_for_confirm (attempt (l, p, t)) g = (Returned (), g1)"
    and f: "login_text g1 = l" "password_text g1 = p" "token_text g1 = t"
    and c: "\<not> close_requested g1"
    using attempt_round [OF assms(1), of l p t] by auto
  obtain g2 where v: "validate g1 = (None, g2)" and c2: "close_requested g2 = close_requested g1"
    using validate_rejects [of g1] assms(2) f a by auto
  have "ask_login_loop (attempt a # envs) g = ask_login_loop envs g2"
    using w v a by simp
  then show ?thesis using c c2 by auto
qed

lemma loop_skips_rejected:
  assumes "\<not> close_requested g" and "\<forall>a\<in>set rejected. \<not> accepted a"
  shows "\<exists>g'. \<not> close_requested g'
            \<and> ask_login_loop (map attempt rejected @ rest) g = ask_login_loop rest g'"
  using assms
proof (induction rejected arbitrary: g)
  case Nil
  then show ?case by auto
next
  case (Cons a rejected)
  obtain g1 where g1: "\<not> close_requested g1"
    "ask_login_loop (attempt a # map attempt rejected @ rest) g
       = ask_login_loop (map attempt rejected @ rest) g1"
    using loop_rejects [OF Cons.prems(1), of a "map attempt rejected @ rest"] Cons.prems(2)
    by auto
  obtain g' where "\<not> close_requested g'"
    "ask_login_loop (map attempt rejected @ rest) g1 = ask_login_loop rest g'"
    using Cons.IH [OF g1(1)] Cons.prems(2) by auto
  then show ?case using g1(2) by auto
qed

lemma loop_returns_valid:
  "fst (ask_login_loop envs g) = Returned d \<Longrightarrow> valid_fields (username d) (password d) (token d)"
proof (induction envs arbitrary: g)
  case Nil
  then show ?case by simp
next
  case (Cons env envs)
  obtain r g1 where w: "wait_for_confirm env g = (r, g1)" by (cases "wait_for_confirm env g")
  show ?case
  proof (cases r)
    case (Returned u)
    show ?thesis
    proof (cases "accepted (login_text g1, password_text g1, token_text g1)")
      case True
      then have "validate g1 = (Some (login_data_of (login_text g1, password_text g1, token_text g1)), g1)"
        by (rule validate_accepts)
      then have "d = login_data_of (login_text g1, password_text g1, token_text g1)"
        using Cons.prems w Returned by simp
      then show ?thesis using True by (simp add: accepted_def login_data_of_def)
    next
      case False
      then obtain g2 where "validate g1 = (None, g2)"
        using validate_rejects [of g1] by auto
      then have "fst (ask_login_loop envs g2) = Returned d"
        using Cons.prems w Returned by simp
      then show ?thesis by (rule Cons.IH)
    qed
  next
    case (Raised e)
    then show ?thesis using Cons.prems w by simp
  next
    case Blocked
    then show ?thesis using Cons.prems w by simp
  qed
qed

text \<open>
  C4, as stated, makes the loop return exactly when the texts of the fields satisfy the
  constraints, and return those texts. It does not: with \<open>"abc "\<close> (a trailing space) in
  the login field the text does not match \<open>[A-Za-z0-9_]+\<close>, yet the loop returns, and the
  user name it returns is \<open>"abc"\<close>, not the text of the field.
\<close>

theorem stripped_username_counterexample:
  "fst (ask_login [] [attempt (lit ''abc '', lit ''longenough1'', [])] (init_gui []))
     = Returned \<lparr>username = lit ''abc'', password = lit ''longenough1'', token = []\<rparr>
   \<and> \<not> valid_fields (lit ''abc '') (lit ''longenough1'') []"
proof -
  have a: "accepted (lit ''abc '', lit ''longenough1'', [])"
    by (simp add: accepted_def valid_fields_def username_shape_def strip_def lit_def isspace_def word_char_def)
  have c: "\<not> close_requested (LoginForm_update [] None (init_gui []))"
    by (simp add: LoginForm_update_def)
  have "fst (ask_login [] [attempt (lit ''abc '', lit ''longenough1'', [])] (init_gui []))
        = Returned (login_data_of (lit ''abc '', lit ''longenough1'', []))"
    using loop_accepts [OF c a, of "[]"] by (simp add: ask_login_def)
  moreover have "login_data_of (lit ''abc '', lit ''longenough1'', [])
     = \<lparr>username = lit ''abc'', password = lit ''longenough1'', token = []\<rparr>"
    by (simp add: login_data_of_def strip_def lit_def isspace_def)
  moreover have "\<not> valid_fields (lit ''abc '') (lit ''longenough1'') []"
    by (simp add: valid_fields_def username_shape_def lit_def word_char_def)
  ultimately show ?thesis by simp
qed

text \<open>
  C4, amended. The loop applies the constraints to the user name and the token with the
  white space at their ends removed and to the password as typed. Starting with the close
  event unset and fed any number of confirmation attempts that fail this check, the loop
  has not returned when they are used up; followed by an attempt that passes, it returns
  the \<open>LoginData\<close> of that attempt, the first one to pass: the stripped user name, the
  password and the stripped token. Whatever happens during the waits, a \<open>LoginData\<close> that
  the loop returns satisfies the constraints.
\<close>

theorem ask_login_first_accepted:
  assumes "\<not> close_requested g" and "\<forall>a\<in>set rejected. \<not> accepted a"
  shows "(accepted a \<longrightarrow>
           fst (ask_login required (map attempt rejected @ attempt a # later) g)
             = Returned (login_data_of a))
       \<and> fst (ask_login required (map attempt rejected) g) = Blocked
       \<and> (fst (ask_login required envs g) = Returned d
            \<longrightarrow> valid_fields (username d) (password d) (token d))"
proof -
  let ?g = "LoginForm_update required None g"
  have c: "\<not> close_requested ?g" using assms(1) by (simp add: LoginForm_update_def)
  obtain g1 where g1: "\<not> close_requested g1"
    "ask_login_loop (map attempt rejected @ attempt a # later) ?g = ask_login_loop (attempt a # later) g1"
    using loop_skips_rejected [OF c assms(2), of "attempt a # later"] by auto
  obtain g2 where g2: "ask_login_loop (map attempt rejected @ []) ?g = ask_login_loop [] g2"
    using loop_skips_rejected [OF c assms(2), of "[]"] by auto
  have 1: "accepted a \<longrightarrow>
           fst (ask_login required (map attempt rejected @ attempt a # later) g)
             = Returned (login_data_of a)"
    using g1 loop_accepts [OF g1(1), of a later] by (simp add: ask_login_def)
  have 2: "fst (ask_login required (map attempt rejected) g) = Blocked"
    using g2 by (simp add: ask_login_def)
  have 3: "fst (ask_login required envs g) = Returned d
            \<longrightarrow> valid_fields (username d) (password d) (token d)"
    using loop_returns_valid [of envs ?g d] by (simp add: ask_login_def)
  from 1 2 3 show ?thesis by simp
qed

theorem ask_login_first_accepted_witness:
  "\<not> close_requested (init_gui [])
   \<and> \<not> accepted (lit ''ab'', lit ''short'', [])
   \<and> \<not> accepted (lit ''valid_user'', lit ''short'', [])
   \<and> accepted (lit '' valid_user'', lit ''longenough1'', [])
   \<and> fst (ask_login []
        (map attempt [(lit ''ab'', lit ''short'', []), (lit ''valid_user'', lit ''short'', [])]
         @ attempt (lit '' valid_user'', lit ''longenough1'', []) # []) (init_gui []))
      = Returned \<lparr>username = lit ''valid_user'', password = lit ''longenough1'', token = []\<rparr>
   \<and> fst (ask_login []
        (map attempt [(lit ''ab'', lit ''short'', []), (lit ''valid_user'', lit ''short'', [])])
        (init_gui [])) = Blocked"
proof -
  have s: "strip (lit ''ab'') = lit ''ab''" "strip (lit ''valid_user'') = lit ''valid_user''"
    "strip (lit '' valid_user'') = lit ''valid_user''" "strip [] = []"
    by (simp_all add: strip_def lit_def isspace_def)
  have r: "\<not> accepted (lit ''ab'', lit ''short'', [])"
    "\<not> accepted (lit ''valid_user'', lit ''short'', [])"
    by (simp_all add: accepted_def valid_fields_def s) (simp_all add: lit_def)
  have a: "accepted (lit '' valid_user'', lit ''longenough1'', [])"
    by (simp add: accepted_def valid_fields_def s) (simp add: username_shape_def lit_def word_char_def)
  have c: "\<not> close_requested (init_gui [])" by simp
  have q: "\<forall>a\<in>set [(lit ''ab'', lit ''short'', []), (lit ''valid_user'', lit ''short'', [])].
             \<not> accepted a"
    using r by simp
  have d: "login_data_of (lit '' valid_user'', lit ''longenough1'', [])
           = \<lparr>username = lit ''valid_user'', password = lit ''longenough1'', token = []\<rparr>"
    by (simp add: login_data_of_def s)
  show ?thesis
    using r a c d
      ask_login_first_accepted [OF c q, of "(lit '' valid_user'', lit ''longenough1'', [])" "[]" "[]" "[]"
        "login_data_of (lit '' valid_user'', lit ''longenough1'', [])"]
    by simp
qed

text \<open>
  The scenario of the specification: the user name \<open>"ab"\<close> and the password \<open>"short"\<close>,
  then the user name \<open>"valid_user"\<close>, then the password \<open>"longenough1"\<close>. The loop rejects
  twice, each time keeping the field it did not clear, and returns the second values.
\<close>

lemma login_scenario:
  "fst (ask_login []
     [([TypeLogin (lit ''ab''), TypePassword (lit ''short''), ClickConfirm], Resume True),
      ([TypeLogin (lit ''valid_user''), ClickConfirm], Resume True),
      ([TypePassword (lit ''longenough1''), ClickConfirm], Resume True)] (init_gui []))
   = Returned \<lparr>username = lit ''valid_user'', password = lit ''longenough1'', token = []\<rparr>"
  by (simp add: ask_login_def LoginForm_update_def init_gui_def rendezvous_defs validate_cases
      read_login_data_def username_shape_def strip_def lit_def isspace_def word_char_def)

section \<open>Once the close event is set, every waiter takes the exit\<close>

















end
